theory Spec2Isabelle
  imports
    Complex_Main
    "HOL-Library.Log_Nat"
    "HOL-Library.Signed_Division"
    "HOL-Library.Sublist"
    "HOL-Library.Multiset"
begin

section \<open>The zp package: rider snapshots from ZwiftPower event histories\<close>

text \<open>
  The development embeds \<^verbatim>\<open>src/zp/zp.go\<close>: the custom timestamp decoder
  \<^verbatim>\<open>EventDateType.UnmarshalJSON\<close>, the aggregation loop of \<^verbatim>\<open>ImportRider\<close> and the
  presentation helper \<^verbatim>\<open>Rider.MonthsAgo\<close>. Functions of Go's standard library that the
  package calls are modelled at their documented behaviour (package \<^verbatim>\<open>time\<close>) or taken as
  parameters (\<^verbatim>\<open>strconv.ParseFloat\<close>, \<^verbatim>\<open>json.Unmarshal\<close>, \<^verbatim>\<open>Time.Month\<close>, the HTTP fetch).
  The wall clock is a parameter as well: \<open>clock i\<close> is what the \<open>i\<close>-th call of
  \<^verbatim>\<open>time.Now()\<close> returns.
\<close>

subsection \<open>float64\<close>

text \<open>
  A \<^verbatim>\<open>float64\<close> that is only stored and compared (the two ratios of an event) is a NaN, an
  infinity or a finite number; \<open>Fin\<close> ranges over all rationals, a superset of the finite
  binary64 values, which is harmless for values that are never computed with; the two
  zeros, which no comparison tells apart, are one value. Go's \<^verbatim>\<open>>\<close> is false as soon as
  one side is a NaN.
\<close>

datatype extended = NInf | Fin rat | PInf

instantiation extended :: linorder
begin

fun less_eq_extended :: "extended \<Rightarrow> extended \<Rightarrow> bool" where
  "less_eq_extended NInf _ = True"
| "less_eq_extended _ PInf = True"
| "less_eq_extended (Fin a) (Fin b) = (a \<le> b)"
| "less_eq_extended _ _ = False"

definition less_extended :: "extended \<Rightarrow> extended \<Rightarrow> bool" where
  "less_extended a b = (a \<le> b \<and> \<not> b \<le> a)"

instance
proof
  fix x y z :: extended
  show "(x < y) = (x \<le> y \<and> \<not> y \<le> x)" by (simp add: less_extended_def)
  show "x \<le> x" by (cases x) simp_all
  show "x \<le> y \<Longrightarrow> y \<le> z \<Longrightarrow> x \<le> z"
    by (cases x; cases y; cases z) simp_all
  show "x \<le> y \<Longrightarrow> y \<le> x \<Longrightarrow> x = y"
    by (cases x; cases y) simp_all
  show "x \<le> y \<or> y \<le> x"
    by (cases x; cases y) auto
qed

end

datatype float64 = NaN | Num extended

definition float64_zero :: float64 where
  "float64_zero = Num (Fin 0)"

fun float64_gt :: "float64 \<Rightarrow> float64 \<Rightarrow> bool" where
  "float64_gt (Num a) (Num b) = (b < a)"
| "float64_gt _ _ = False"

text \<open>
  A \<^verbatim>\<open>float64\<close> that is computed with (the hours of a duration) is always finite and far
  from the limits of the exponent range, so its arithmetic is exact arithmetic on the
  rationals followed by rounding to the nearest number with a 53-bit significand, ties to
  even: \<open>binary_exponent x\<close> is \<open>\<lfloor>log\<^sub>2 \<bar>x\<bar>\<rfloor>\<close>, and the unit in the last place of \<open>x\<close> is
  \<open>2 powi (binary_exponent x - 52)\<close>.
\<close>

definition round_half_even :: "rat \<Rightarrow> int" where
  "round_half_even x =
     (let n = \<lfloor>x\<rfloor>; r = x - of_int n
      in if r < 1 / 2 then n else if 1 / 2 < r then n + 1 else if even n then n else n + 1)"

definition binary_exponent :: "rat \<Rightarrow> int" where
  "binary_exponent x =
     (if 1 \<le> \<bar>x\<bar> then bitlen \<lfloor>\<bar>x\<bar>\<rfloor> - 1 else - bitlen (\<lceil>1 / \<bar>x\<bar>\<rceil> - 1))"

definition round_binary64 :: "rat \<Rightarrow> rat" where
  "round_binary64 x =
     (if x = 0 then 0
      else let ulp = 2 powi (binary_exponent x - 52)
           in of_int (round_half_even (x / ulp)) * ulp)"

definition float64_of_int :: "int \<Rightarrow> rat" where
  "float64_of_int n = round_binary64 (of_int n)"

definition float64_add :: "rat \<Rightarrow> rat \<Rightarrow> rat" where
  "float64_add a b = round_binary64 (a + b)"

definition float64_div :: "rat \<Rightarrow> rat \<Rightarrow> rat" where
  "float64_div a b = round_binary64 (a / b)"

text \<open>The conversion \<^verbatim>\<open>int(f)\<close> discards the fraction: it truncates toward zero.\<close>

definition int_of_float64 :: "rat \<Rightarrow> int" where
  "int_of_float64 x = (if 0 \<le> x then \<lfloor>x\<rfloor> else \<lceil>x\<rceil>)"

subsection \<open>Package time\<close>

text \<open>
  A \<^verbatim>\<open>time.Time\<close> is an instant, here its distance from the Unix epoch in nanoseconds; the
  zero \<^verbatim>\<open>Time\<close> is January 1 of year 1, 62135596800 seconds before the epoch. A
  \<^verbatim>\<open>time.Duration\<close> is an \<^verbatim>\<open>int64\<close> count of nanoseconds, and \<^verbatim>\<open>Sub\<close> saturates at its
  limits. \<^verbatim>\<open>Duration.Hours\<close> is
  \<^verbatim>\<open>hour := d / Hour; nsec := d % Hour; return float64(hour) + float64(nsec)/(60*60*1e9)\<close>,
  with Go's integer division, which truncates toward zero.
\<close>

type_synonym Time = int
type_synonym Duration = int

definition Second :: Duration where
  "Second = 10 ^ 9"

definition Hour :: Duration where
  "Hour = 60 * 60 * Second"

definition maxDuration :: Duration where
  "maxDuration = 2 ^ 63 - 1"

definition minDuration :: Duration where
  "minDuration = - (2 ^ 63)"

definition zero_Time :: Time where
  "zero_Time = - 62135596800 * Second"

definition time_Unix :: "int \<Rightarrow> int \<Rightarrow> Time" where
  "time_Unix sec nsec = sec * Second + nsec"

definition Sub :: "Time \<Rightarrow> Time \<Rightarrow> Duration" where
  "Sub t u = (if t - u > maxDuration then maxDuration
              else if t - u < minDuration then minDuration else t - u)"

definition After :: "Time \<Rightarrow> Time \<Rightarrow> bool" where
  "After t u = (u < t)"

definition IsZero :: "Time \<Rightarrow> bool" where
  "IsZero t = (t = zero_Time)"

definition Hours :: "Duration \<Rightarrow> rat" where
  "Hours d =
     (let hour = d sdiv Hour; nsec = d smod Hour
      in float64_add (float64_of_int hour)
           (float64_div (float64_of_int nsec) (60 * 60 * 10 ^ 9)))"

subsection \<open>Package strings\<close>

fun Contains :: "string \<Rightarrow> string \<Rightarrow> bool" where
  "Contains [] substr = (substr = [])"
| "Contains (c # s) substr = (prefix substr (c # s) \<or> Contains s substr)"

subsection \<open>The data of the package\<close>

text \<open>
  What \<^verbatim>\<open>json.Unmarshal\<close> stores into an \<^verbatim>\<open>interface{}\<close>: \<^verbatim>\<open>nil\<close>, a \<^verbatim>\<open>bool\<close>, a
  \<^verbatim>\<open>float64\<close>, a \<^verbatim>\<open>string\<close>, a \<^verbatim>\<open>[]interface{}\<close> or a \<^verbatim>\<open>map[string]interface{}\<close>.
\<close>

datatype iface =
    INil
  | IBool bool
  | IFloat64 float64
  | IString string
  | ISlice "iface list"
  | IMap "(string \<times> iface) list"

datatype error = Error string

text \<open>
  Two ways in which \<^verbatim>\<open>ImportRider\<close> ends without returning: a run-time panic (a failed type
  assertion, an index out of range) and \<^verbatim>\<open>log.Fatal\<close>, which exits the process.
\<close>

datatype abort = PanicInterfaceConversion | PanicIndexOutOfRange | LogFatal error

record Rider =
  Name :: string
  Zwid :: int
  LatestEventDate :: Time
  Rides :: int
  Races :: int
  Races90 :: int
  Races30 :: int
  Ftp90 :: float64
  Ftp60 :: float64
  Ftp30 :: float64
  LatestRace :: string
  LatestRaceDate :: Time
  LatestEvent :: string
  LatestRaceAvgWkg :: float64
  LatestRaceWkgFtp :: float64

record Event =
  EventType :: string
  EventDateSecs :: int
  EventDate :: Time
  EventTitle :: string
  AvgWkg :: iface
  WkgFtp :: iface

text \<open>The zero value of \<^verbatim>\<open>Rider\<close>, which the named result \<^verbatim>\<open>rider\<close> starts from.\<close>

definition zero_Rider :: Rider where
  "zero_Rider =
     \<lparr>Name = [], Zwid = 0, LatestEventDate = zero_Time, Rides = 0, Races = 0, Races90 = 0,
      Races30 = 0, Ftp90 = float64_zero, Ftp60 = float64_zero, Ftp30 = float64_zero,
      LatestRace = [], LatestRaceDate = zero_Time, LatestEvent = [],
      LatestRaceAvgWkg = float64_zero, LatestRaceWkgFtp = float64_zero\<rparr>"

subsection \<open>EventDateType.UnmarshalJSON\<close>

text \<open>
  \<open>json_Unmarshal data\<close> stands for \<^verbatim>\<open>json.Unmarshal(data, &v)\<close> with \<^verbatim>\<open>v\<close> an \<^verbatim>\<open>int64\<close>:
  the number stored or the error, in which case \<^verbatim>\<open>v\<close> keeps its zero value. The method
  overwrites its receiver and returns \<^verbatim>\<open>nil\<close>; the result below is the new receiver and the
  returned error.
\<close>

definition UnmarshalJSON :: "(string \<Rightarrow> error + int) \<Rightarrow> string \<Rightarrow> int \<times> error option" where
  "UnmarshalJSON json_Unmarshal data =
     (let v = (case json_Unmarshal data of Inl _ \<Rightarrow> 0 | Inr n \<Rightarrow> n)
      in (v, None))"

text \<open>
  The field \<^verbatim>\<open>EventDateSecs\<close> of a decoded event: the decoder calls the method on the bytes
  of the key \<^verbatim>\<open>event_date\<close>, and leaves the zero value when the object has no such key.
\<close>

definition decode_EventDateSecs :: "(string \<Rightarrow> error + int) \<Rightarrow> string option \<Rightarrow> int" where
  "decode_EventDateSecs json_Unmarshal field =
     (case field of None \<Rightarrow> 0 | Some data \<Rightarrow> fst (UnmarshalJSON json_Unmarshal data))"

subsection \<open>ImportRider\<close>

text \<open>Line 123: the date of an event.\<close>

definition EventDate_of :: "Event \<Rightarrow> Time" where
  "EventDate_of e = time_Unix (EventDateSecs e) 0"

text \<open>
  Line 124, \<^verbatim>\<open>int(d.Hours() / 24)\<close>, with \<open>now\<close> the clock reading of this iteration.
\<close>

definition days_of :: "Duration \<Rightarrow> int" where
  "days_of d = int_of_float64 (float64_div (Hours d) 24)"

definition daysAgo :: "Time \<Rightarrow> Event \<Rightarrow> int" where
  "daysAgo now e = days_of (Sub now (EventDate_of e))"

definition isRace :: "Event \<Rightarrow> bool" where
  "isRace e = Contains (EventType e) ''RACE''"

text \<open>
  Lines 138 to 145: \<^verbatim>\<open>wkgFtp\<close>. The first element is taken as a \<^verbatim>\<open>float64\<close>, and parsed as
  text when it is not one.
\<close>

definition wkgFtp_of :: "(string \<Rightarrow> error + float64) \<Rightarrow> iface \<Rightarrow> abort + float64" where
  "wkgFtp_of ParseFloat w =
     (case w of
        ISlice eventWkgFtp \<Rightarrow>
          (case eventWkgFtp of
             [] \<Rightarrow> Inl PanicIndexOutOfRange
           | x # _ \<Rightarrow>
               (case x of
                  IFloat64 f \<Rightarrow> Inr f
                | IString s \<Rightarrow>
                    (case ParseFloat s of Inl err \<Rightarrow> Inl (LogFatal err) | Inr f \<Rightarrow> Inr f)
                | _ \<Rightarrow> Inl PanicInterfaceConversion))
      | _ \<Rightarrow> Inl PanicInterfaceConversion)"

text \<open>Lines 147 to 150: \<^verbatim>\<open>avgWkg\<close>. The first element is asserted to be a \<^verbatim>\<open>string\<close>.\<close>

definition avgWkg_of :: "(string \<Rightarrow> error + float64) \<Rightarrow> iface \<Rightarrow> abort + float64" where
  "avgWkg_of ParseFloat a =
     (case a of
        ISlice xs \<Rightarrow>
          (case xs of
             [] \<Rightarrow> Inl PanicIndexOutOfRange
           | x # _ \<Rightarrow>
               (case x of
                  IString s \<Rightarrow>
                    (case ParseFloat s of Inl err \<Rightarrow> Inl (LogFatal err) | Inr f \<Rightarrow> Inr f)
                | _ \<Rightarrow> Inl PanicInterfaceConversion))
      | _ \<Rightarrow> Inl PanicInterfaceConversion)"

text \<open>The variables the loop updates.\<close>

record loop_state =
  rider :: Rider
  latestEventDate :: Time
  latestRaceDate :: Time

text \<open>Lines 128 to 133.\<close>

definition last_year :: "int \<Rightarrow> bool \<Rightarrow> Rider \<Rightarrow> Rider" where
  "last_year days race r =
     (if days \<le> 365
      then (let r1 = r\<lparr>Rides := Rides r + 1\<rparr>
            in if race then r1\<lparr>Races := Races r1 + 1\<rparr> else r1)
      else r)"

text \<open>Lines 153 to 161.\<close>

definition last_three_months :: "int \<Rightarrow> bool \<Rightarrow> float64 \<Rightarrow> Rider \<Rightarrow> Rider" where
  "last_three_months days race wkgFtp r =
     (if days \<le> 90
      then (let r1 = (if float64_gt wkgFtp (Ftp90 r) then r\<lparr>Ftp90 := wkgFtp\<rparr> else r)
            in if race then r1\<lparr>Races90 := Races90 r1 + 1\<rparr> else r1)
      else r)"

text \<open>Lines 164 to 168.\<close>

definition last_two_months :: "int \<Rightarrow> float64 \<Rightarrow> Rider \<Rightarrow> Rider" where
  "last_two_months days wkgFtp r =
     (if days \<le> 60
      then (if float64_gt wkgFtp (Ftp60 r) then r\<lparr>Ftp60 := wkgFtp\<rparr> else r)
      else r)"

text \<open>Lines 171 to 179.\<close>

definition last_month :: "int \<Rightarrow> bool \<Rightarrow> float64 \<Rightarrow> Rider \<Rightarrow> Rider" where
  "last_month days race wkgFtp r =
     (if days \<le> 30
      then (let r1 = (if race then r\<lparr>Races30 := Races30 r + 1\<rparr> else r)
            in if float64_gt wkgFtp (Ftp30 r1) then r1\<lparr>Ftp30 := wkgFtp\<rparr> else r1)
      else r)"

text \<open>Lines 181 to 184.\<close>

definition latest_event :: "Event \<Rightarrow> loop_state \<Rightarrow> loop_state" where
  "latest_event e s =
     (if After (EventDate_of e) (latestEventDate s)
      then s\<lparr>latestEventDate := EventDate_of e,
             rider := (rider s)\<lparr>LatestEvent := EventTitle e\<rparr>\<rparr>
      else s)"

text \<open>Lines 186 to 191.\<close>

definition latest_race :: "Event \<Rightarrow> float64 \<Rightarrow> float64 \<Rightarrow> loop_state \<Rightarrow> loop_state" where
  "latest_race e avgWkg wkgFtp s =
     (if isRace e \<and> After (EventDate_of e) (latestRaceDate s)
      then s\<lparr>latestRaceDate := EventDate_of e,
             rider := (rider s)\<lparr>LatestRace := EventTitle e, LatestRaceAvgWkg := avgWkg,
                                LatestRaceWkgFtp := wkgFtp\<rparr>\<rparr>
      else s)"

text \<open>
  Lines 123 to 191: one iteration. A panic or \<^verbatim>\<open>log.Fatal\<close> ends the whole call, so the
  counters incremented before it are lost with everything else.
\<close>

definition loop_body ::
  "(string \<Rightarrow> error + float64) \<Rightarrow> Time \<Rightarrow> Event \<Rightarrow> loop_state \<Rightarrow> abort + loop_state" where
  "loop_body ParseFloat now e s =
     (let days = daysAgo now e;
          race = isRace e;
          r1 = last_year days race (rider s)
      in case wkgFtp_of ParseFloat (WkgFtp e) of
           Inl a \<Rightarrow> Inl a
         | Inr wkgFtp \<Rightarrow>
             (case avgWkg_of ParseFloat (AvgWkg e) of
                Inl a \<Rightarrow> Inl a
              | Inr avgWkg \<Rightarrow>
                  (let r2 = last_three_months days race wkgFtp r1;
                       r3 = last_two_months days wkgFtp r2;
                       r4 = last_month days race wkgFtp r3
                   in Inr (latest_race e avgWkg wkgFtp
                             (latest_event e (s\<lparr>rider := r4\<rparr>))))))"

text \<open>
  Line 122: the loop, over the events paired with the clock reading of their iteration.
\<close>

fun for_range ::
  "(string \<Rightarrow> error + float64) \<Rightarrow> (Time \<times> Event) list \<Rightarrow> loop_state \<Rightarrow> abort + loop_state" where
  "for_range ParseFloat [] s = Inr s"
| "for_range ParseFloat ((now, e) # es) s =
     (case loop_body ParseFloat now e s of
        Inl a \<Rightarrow> Inl a
      | Inr s' \<Rightarrow> for_range ParseFloat es s')"

definition readings :: "(nat \<Rightarrow> Time) \<Rightarrow> Event list \<Rightarrow> (Time \<times> Event) list" where
  "readings clock Data = zip (map clock [0..<length Data]) Data"

text \<open>
  Lines 114 to 196: \<^verbatim>\<open>ImportRider\<close> from the decoded payload \<^verbatim>\<open>r.Data\<close> on. The result is
  the pair the function returns, or the way the call was cut short.
\<close>

definition ImportRider_Data ::
  "(string \<Rightarrow> error + float64) \<Rightarrow> (nat \<Rightarrow> Time) \<Rightarrow> int \<Rightarrow> Event list
     \<Rightarrow> abort + (Rider \<times> error option)" where
  "ImportRider_Data ParseFloat clock riderID Data =
     (let rider0 = zero_Rider\<lparr>Zwid := riderID\<rparr>
      in if length Data < 1 then Inr (rider0, None)
         else
           (case for_range ParseFloat (readings clock Data)
                   \<lparr>rider = rider0, latestEventDate = zero_Time, latestRaceDate = zero_Time\<rparr> of
              Inl a \<Rightarrow> Inl a
            | Inr s \<Rightarrow>
                Inr ((rider s)\<lparr>LatestEventDate := latestEventDate s,
                               LatestRaceDate := latestRaceDate s\<rparr>, None)))"

text \<open>
  Lines 97 to 197: the whole function. \<open>getJSON\<close> is the outcome of the fetch and
  \<open>json_Unmarshal\<close> decodes the payload into \<^verbatim>\<open>riderData\<close>; both failures return the zero
  \<^verbatim>\<open>Rider\<close> with the error.
\<close>

definition ImportRider ::
  "(string \<Rightarrow> error + float64) \<Rightarrow> (nat \<Rightarrow> Time) \<Rightarrow> error + string
     \<Rightarrow> (string \<Rightarrow> error + Event list) \<Rightarrow> int \<Rightarrow> abort + (Rider \<times> error option)" where
  "ImportRider ParseFloat clock getJSON json_Unmarshal riderID =
     (case getJSON of
        Inl err \<Rightarrow> Inr (zero_Rider, Some err)
      | Inr data \<Rightarrow>
          (case json_Unmarshal data of
             Inl err \<Rightarrow> Inr (zero_Rider, Some err)
           | Inr Data \<Rightarrow> ImportRider_Data ParseFloat clock riderID Data))"

subsection \<open>Notions for the statements\<close>

text \<open>
  The ordered values among the \<^verbatim>\<open>wkgFtp\<close> of the iterations whose \<^verbatim>\<open>daysAgo\<close> is at most
  \<open>N\<close>; a NaN is in no order, and the comparisons of the loop skip it.
\<close>

fun ratio_value :: "abort + float64 \<Rightarrow> extended list" where
  "ratio_value (Inr (Num v)) = [v]"
| "ratio_value _ = []"

definition window_ratios ::
  "(string \<Rightarrow> error + float64) \<Rightarrow> int \<Rightarrow> (Time \<times> Event) list \<Rightarrow> extended list" where
  "window_ratios ParseFloat N xs =
     concat (map (\<lambda>(now, e). if daysAgo now e \<le> N
                                then ratio_value (wkgFtp_of ParseFloat (WkgFtp e)) else []) xs)"


text \<open>The counters of the nested windows are nested.\<close>

definition nested :: "Rider \<Rightarrow> bool" where
  "nested r \<longleftrightarrow> Races30 r \<le> Races90 r \<and> Races90 r \<le> Races r \<and> Races r \<le> Rides r"

subsection \<open>Rider.MonthsAgo\<close>

fun decimal :: "nat \<Rightarrow> string" where
  "decimal n =
     (if n < 10 then [''0123456789'' ! n]
      else decimal (n div 10) @ [''0123456789'' ! (n mod 10)])"

definition Sprintf_d :: "int \<Rightarrow> string" where
  "Sprintf_d i = (if i < 0 then CHR ''-'' # decimal (nat (- i)) else decimal (nat i))"

text \<open>
  Lines 215 to 237. \<open>Month\<close> is \<^verbatim>\<open>Time.Month\<close>, the month of an instant in the local time
  zone; the method reads the clock twice.
\<close>

definition MonthsAgo :: "(nat \<Rightarrow> Time) \<Rightarrow> (Time \<Rightarrow> int) \<Rightarrow> Rider \<Rightarrow> string" where
  "MonthsAgo clock Month r =
     (if IsZero (LatestEventDate r) then ''No latest event''
      else if Sub (clock 0) (LatestEventDate r) > Hour * 24 * 365 then ''Over a year ago''
      else
        (let monthDiff = Month (clock 1) - Month (LatestEventDate r);
             monthDiff = (if monthDiff < 0 then monthDiff + 12 else monthDiff)
         in if monthDiff = 0 then ''This month''
            else if monthDiff = 1 then ''Last month''
            else Sprintf_d monthDiff @ '' months ago''))"

subsection \<open>A rider history\<close>

text \<open>
  Concrete inputs for the instances below. The clock stands 500 days after the epoch;
  \<open>E1\<close> is a race 40 days before, \<open>E2\<close> a race 10 days before and \<open>E3\<close> a ride 400 days
  before. The two parsers are tables: they know the texts of these events and reject
  every other.
\<close>

definition ParseFloat_table :: "string \<Rightarrow> error + float64" where
  "ParseFloat_table s =
     (if s = ''3.25'' then Inr (Num (Fin (13 / 4)))
      else if s = ''1.10'' then Inr (Num (Fin (11 / 10)))
      else if s = ''2.0'' then Inr (Num (Fin 2))
      else if s = ''NaN'' then Inr NaN
      else Inl (Error ''invalid syntax''))"

definition E1 :: Event where
  "E1 = \<lparr>EventType = ''TYPE_RACE'', EventDateSecs = 39744000, EventDate = zero_Time,
          EventTitle = ''E1'', AvgWkg = ISlice [IString ''3.25''],
          WkgFtp = ISlice [IString ''1.10'']\<rparr>"

definition E2 :: Event where
  "E2 = \<lparr>EventType = ''TYPE_RACE'', EventDateSecs = 42336000, EventDate = zero_Time,
          EventTitle = ''E2'', AvgWkg = ISlice [IString ''3.25''],
          WkgFtp = ISlice [IFloat64 (Num (Fin (21 / 20)))]\<rparr>"

definition E3 :: Event where
  "E3 = \<lparr>EventType = ''TYPE_RIDE'', EventDateSecs = 8640000, EventDate = zero_Time,
          EventTitle = ''E3'', AvgWkg = ISlice [IString ''3.25''],
          WkgFtp = ISlice [IString ''2.0'']\<rparr>"

definition now500 :: Time where
  "now500 = 500 * (24 * Hour)"

definition json_Unmarshal_table :: "string \<Rightarrow> error + int" where
  "json_Unmarshal_table data =
     (if data = ''1700000000'' then Inr 1700000000
      else Inl (Error ''json: cannot unmarshal into Go value of type int64''))"

section \<open>Lemmas\<close>

subsection \<open>Rounding to binary64\<close>

text \<open>
  Rounding does not cross a number of the grid it rounds to: for \<open>x\<close> below
  \<open>2 powi (53 + j)\<close> in absolute value, the unit in the last place divides \<open>2 powi j\<close>, so a
  multiple of \<open>2 powi j\<close> on one side of \<open>x\<close> stays on that side of the rounded \<open>x\<close>. All
  bounds on computed hours and days below are instances.
\<close>

lemma round_half_even_cases:
  "round_half_even x = \<lfloor>x\<rfloor> \<or> (round_half_even x = \<lfloor>x\<rfloor> + 1 \<and> of_int \<lfloor>x\<rfloor> < x)"
  unfolding round_half_even_def Let_def by auto

lemma round_half_even_ge: "of_int k \<le> x \<Longrightarrow> k \<le> round_half_even x"
  using round_half_even_cases [of x] by (auto simp: le_floor_iff) linarith

lemma round_half_even_le:
  assumes "x \<le> of_int k"
  shows "round_half_even x \<le> k"
proof -
  have "\<lfloor>x\<rfloor> \<le> k" using assms by (simp add: floor_le_iff) 
  moreover have "\<lfloor>x\<rfloor> + 1 \<le> k" if "of_int \<lfloor>x\<rfloor> < x"
  proof -
    from that assms have "(of_int \<lfloor>x\<rfloor> :: rat) < of_int k" by linarith
    then show ?thesis by simp
  qed
  ultimately show ?thesis using round_half_even_cases [of x] by auto
qed



lemma binary_exponent_le:
  assumes "x \<noteq> 0"
  shows "2 powi binary_exponent x \<le> \<bar>x\<bar>"
proof (cases "1 \<le> \<bar>x\<bar>")
  case True
  define n where "n = \<lfloor>\<bar>x\<bar>\<rfloor>"
  from True have n: "0 < n" by (simp add: n_def)
  from bitlen_bounds [OF n] have "2 ^ nat (bitlen n - 1) \<le> n" by simp
  then have "(2 :: rat) ^ nat (bitlen n - 1) \<le> of_int n"
    by (metis of_int_le_iff of_int_numeral of_int_power)
  also have "\<dots> \<le> \<bar>x\<bar>" by (simp add: n_def)
  finally have "(2 :: rat) ^ nat (bitlen n - 1) \<le> \<bar>x\<bar>" .
  moreover have "bitlen n - 1 \<ge> 0" using n by (simp add: bitlen_alt_def)
  ultimately show ?thesis using True
    by (simp add: binary_exponent_def n_def power_int_def)
next
  case False
  define m where "m = \<lceil>1 / \<bar>x\<bar>\<rceil> - 1"
  from False assms have inv: "1 < 1 / \<bar>x\<bar>" by simp
  then have m: "0 < m" unfolding m_def by (simp add: less_ceiling_iff)
  define b where "b = bitlen m"
  have b0: "0 \<le> b" by (simp add: b_def bitlen_nonneg)
  from bitlen_bounds [OF m] have "m < 2 ^ nat b" by (simp add: b_def)
  then have "m + 1 \<le> 2 ^ nat b" by simp
  then have "(of_int (m + 1) :: rat) \<le> 2 ^ nat b"
    by (metis of_int_le_iff of_int_numeral of_int_power)
  moreover have "1 / \<bar>x\<bar> \<le> of_int (m + 1)" by (simp add: m_def)
  ultimately have "1 / \<bar>x\<bar> \<le> 2 ^ nat b" by linarith
  then have "1 \<le> 2 ^ nat b * \<bar>x\<bar>" using assms by (simp add: field_simps)
  then have "inverse (2 ^ nat b) \<le> \<bar>x\<bar>" by (simp add: field_simps)
  moreover have "2 powi binary_exponent x = (inverse (2 ^ nat b) :: rat)"
    using False b0
    by (simp add: binary_exponent_def m_def b_def power_int_def power_one_over inverse_eq_divide)
  ultimately show ?thesis by simp
qed

lemma binary_exponent_less:
  assumes "x \<noteq> 0" and "\<bar>x\<bar> < 2 powi j"
  shows "binary_exponent x < j"
proof (rule ccontr)
  assume "\<not> binary_exponent x < j"
  then have "j \<le> binary_exponent x" by simp
  then have "(2 :: rat) powi j \<le> 2 powi binary_exponent x"
    by (simp add: power_int_increasing)
  with binary_exponent_le [OF assms(1)] assms(2) show False by linarith
qed


lemma grid_multiple:
  assumes "x \<noteq> 0" and "\<bar>x\<bar> < 2 powi (53 + j)"
  shows "\<exists>k. of_int m * 2 powi j = of_int k * (2 powi (binary_exponent x - 52) :: rat)"
proof -
  from binary_exponent_less [OF assms] have "0 \<le> j - (binary_exponent x - 52)" by simp
  then obtain n where n: "j - (binary_exponent x - 52) = int n"
    using nonneg_int_cases by blast
  from n have "j = int n + (binary_exponent x - 52)" by linarith
  then have "(2 :: rat) powi j = 2 powi (int n + (binary_exponent x - 52))"
    by (rule arg_cong)
  also have "\<dots> = 2 ^ n * 2 powi (binary_exponent x - 52)"
    by (simp add: power_int_add)
  finally have "of_int m * 2 powi j = of_int (m * 2 ^ n) * (2 powi (binary_exponent x - 52) :: rat)"
    by simp
  then show ?thesis ..
qed

lemma round_binary64_ge:
  assumes "\<bar>x\<bar> < 2 powi (53 + j)" and "of_int m * 2 powi j \<le> x"
  shows "of_int m * 2 powi j \<le> round_binary64 x"
proof (cases "x = 0")
  case True
  with assms show ?thesis by (simp add: round_binary64_def)
next
  case False
  define u :: rat where "u = 2 powi (binary_exponent x - 52)"
  have u: "0 < u" by (simp add: u_def)
  from grid_multiple [OF False assms(1)] obtain k where k: "of_int m * 2 powi j = of_int k * u"
    unfolding u_def by blast
  with assms(2) u have "of_int k \<le> x / u" by (simp add: pos_le_divide_eq)
  then have "k \<le> round_half_even (x / u)" by (rule round_half_even_ge)
  then have "of_int k * u \<le> of_int (round_half_even (x / u)) * u" using u by simp
  with False k show ?thesis by (simp add: round_binary64_def u_def Let_def)
qed

lemma round_binary64_le:
  assumes "\<bar>x\<bar> < 2 powi (53 + j)" and "x \<le> of_int m * 2 powi j"
  shows "round_binary64 x \<le> of_int m * 2 powi j"
proof (cases "x = 0")
  case True
  with assms show ?thesis by (simp add: round_binary64_def)
next
  case False
  define u :: rat where "u = 2 powi (binary_exponent x - 52)"
  have u: "0 < u" by (simp add: u_def)
  from grid_multiple [OF False assms(1)] obtain k where k: "of_int m * 2 powi j = of_int k * u"
    unfolding u_def by blast
  with assms(2) u have "x / u \<le> of_int k" by (simp add: pos_divide_le_eq)
  then have "round_half_even (x / u) \<le> k" by (rule round_half_even_le)
  then have "of_int (round_half_even (x / u)) * u \<le> of_int k * u" using u by simp
  with False k show ?thesis by (simp add: round_binary64_def u_def Let_def)
qed

lemma round_binary64_exact:
  assumes "\<bar>of_int m * 2 powi j\<bar> < (2 powi (53 + j) :: rat)"
  shows "round_binary64 (of_int m * 2 powi j) = of_int m * 2 powi j"
  using round_binary64_ge [OF assms order_refl] round_binary64_le [OF assms order_refl]
  by simp

lemma float64_of_int_exact:
  assumes "\<bar>n\<bar> < 2 ^ 53"
  shows "float64_of_int n = of_int n"
proof -
  from assms have "\<bar>of_int n :: rat\<bar> < 2 ^ 53"
    by (metis of_int_abs of_int_less_iff of_int_numeral of_int_power)
  then have "\<bar>of_int n * 2 powi 0\<bar> < (2 powi (53 + 0) :: rat)" by simp
  from round_binary64_exact [OF this] show ?thesis by (simp add: float64_of_int_def)
qed

lemma round_binary64_ge_frac:
  assumes "\<bar>x\<bar> < 2 ^ (53 - p)" and "p \<le> 53" and "of_int m / 2 ^ p \<le> x"
  shows "of_int m / 2 ^ p \<le> round_binary64 x"
proof -
  have a: "(2 :: rat) powi (53 + - int p) = 2 ^ (53 - p)"
    using assms(2) by (simp add: power_int_def nat_diff_distrib')
  have b: "of_int m * (2 :: rat) powi (- int p) = of_int m / 2 ^ p"
    by (simp add: power_int_minus divide_inverse)
  from round_binary64_ge [of x "- int p" m] assms a b show ?thesis by simp
qed

lemma round_binary64_le_frac:
  assumes "\<bar>x\<bar> < 2 ^ (53 - p)" and "p \<le> 53" and "x \<le> of_int m / 2 ^ p"
  shows "round_binary64 x \<le> of_int m / 2 ^ p"
proof -
  have a: "(2 :: rat) powi (53 + - int p) = 2 ^ (53 - p)"
    using assms(2) by (simp add: power_int_def nat_diff_distrib')
  have b: "of_int m * (2 :: rat) powi (- int p) = of_int m / 2 ^ p"
    by (simp add: power_int_minus divide_inverse)
  from round_binary64_le [of x "- int p" m] assms a b show ?thesis by simp
qed

lemma round_binary64_ge_int:
  assumes "\<bar>x\<bar> < 2 ^ 53" and "of_int m \<le> x"
  shows "of_int m \<le> round_binary64 x"
  using round_binary64_ge_frac [of x 0 m] assms by simp

lemma round_binary64_le_int:
  assumes "\<bar>x\<bar> < 2 ^ 53" and "x \<le> of_int m"
  shows "round_binary64 x \<le> of_int m"
  using round_binary64_le_frac [of x 0 m] assms by simp


subsection \<open>The days of a duration\<close>

text \<open>
  A duration within the range of an \<^verbatim>\<open>int64\<close> has less than \<open>2 ^ 22\<close> hours, so the hours
  and the quotient by 24 are rounded on a grid of \<open>2 powi (- 31)\<close> at worst. Whole days are
  never crossed, and a duration that is a whole number of milliseconds stays
  \<open>2 powi (- 22)\<close> hours below the next whole hour.
\<close>

lemma Hour_eq: "Hour = 3600000000000"
  by (simp add: Hour_def Second_def)

lemma sdiv_nonneg: "0 \<le> d \<Longrightarrow> d sdiv Hour = d div Hour"
  by (simp add: signed_divide_int_def Hour_eq sgn_if)

lemma smod_nonneg: "0 \<le> d \<Longrightarrow> d smod Hour = d mod Hour"
  by (simp add: signed_modulo_int_def Hour_eq sgn_if)

lemma fraction_bounds:
  assumes "0 \<le> n" and "n < Hour"
  shows "0 \<le> float64_div (float64_of_int n) (60 * 60 * 10 ^ 9)"
    and "float64_div (float64_of_int n) (60 * 60 * 10 ^ 9) \<le> 1"
proof -
  from assms have "\<bar>n\<bar> < 2 ^ 53" by (simp add: Hour_eq)
  then have n: "float64_of_int n = of_int n" by (rule float64_of_int_exact)
  define x :: rat where "x = of_int n / (60 * 60 * 10 ^ 9)"
  from assms have x: "0 \<le> x" "x \<le> 1" by (simp_all add: x_def Hour_eq)
  then have ax: "\<bar>x\<bar> < 2 ^ 53" by simp
  from round_binary64_ge_int [OF ax, of 0] x have "0 \<le> round_binary64 x" by simp
  moreover from round_binary64_le_int [OF ax, of 1] x have "round_binary64 x \<le> 1" by simp
  ultimately show "0 \<le> float64_div (float64_of_int n) (60 * 60 * 10 ^ 9)"
    and "float64_div (float64_of_int n) (60 * 60 * 10 ^ 9) \<le> 1"
    by (simp_all add: float64_div_def n x_def)
qed

lemma hour_bounds:
  assumes "0 \<le> d" and "d \<le> 2 ^ 63"
  shows "0 \<le> d div Hour" and "d div Hour < 2 ^ 22"
proof -
  show "0 \<le> d div Hour" using assms by (simp add: Hour_eq pos_imp_zdiv_nonneg_iff)
  from assms have "d div Hour \<le> 2 ^ 63 div Hour"
    by (simp add: Hour_eq zdiv_mono1)
  also have "\<dots> < 2 ^ 22" by (simp add: Hour_eq)
  finally show "d div Hour < 2 ^ 22" .
qed

lemma Hours_nonneg_unfold:
  assumes "0 \<le> d" and "d \<le> 2 ^ 63"
  shows "Hours d = round_binary64 (of_int (d div Hour)
           + float64_div (float64_of_int (d mod Hour)) (60 * 60 * 10 ^ 9))"
proof -
  from hour_bounds [OF assms] have "\<bar>d div Hour\<bar> < 2 ^ 53" by simp
  then have "float64_of_int (d div Hour) = of_int (d div Hour)" by (rule float64_of_int_exact)
  then show ?thesis
    using assms by (simp add: Hours_def sdiv_nonneg smod_nonneg float64_add_def)
qed

lemma Hours_ge:
  assumes "0 \<le> d" and "d \<le> 2 ^ 63" and "k * Hour \<le> d"
  shows "of_int k \<le> Hours d"
proof -
  define f where "f = float64_div (float64_of_int (d mod Hour)) (60 * 60 * 10 ^ 9)"
  have f: "0 \<le> f" "f \<le> 1"
    unfolding f_def by (rule fraction_bounds; simp add: Hour_eq)+
  note h = hour_bounds [OF assms(1,2)]
  from assms(3) have "k * Hour div Hour \<le> d div Hour" by (simp add: Hour_eq zdiv_mono1)
  then have k: "k \<le> d div Hour" by (simp add: Hour_eq)
  have "(of_int (d div Hour) :: rat) < 2 ^ 22" "(0 :: rat) \<le> of_int (d div Hour)"
    using h by (simp_all add: of_int_less_numeral_power_cancel_iff) 
  then have a: "\<bar>of_int (d div Hour) + f\<bar> < 2 ^ 53" using f by simp
  have "(of_int k :: rat) \<le> of_int (d div Hour)" using k by simp
  then have "of_int k \<le> of_int (d div Hour) + f" using f by simp
  from round_binary64_ge_int [OF a this] show ?thesis
    by (simp add: Hours_nonneg_unfold [OF assms(1,2)] f_def)
qed

lemma Hours_le:
  assumes "0 \<le> d" and "d \<le> 2 ^ 63" and "d \<le> k * Hour"
  shows "Hours d \<le> of_int k"
proof -
  define f where "f = float64_div (float64_of_int (d mod Hour)) (60 * 60 * 10 ^ 9)"
  have f: "0 \<le> f" "f \<le> 1"
    unfolding f_def by (rule fraction_bounds; simp add: Hour_eq)+
  note h = hour_bounds [OF assms(1,2)]
  have hq: "(of_int (d div Hour) :: rat) < 2 ^ 22" "(0 :: rat) \<le> of_int (d div Hour)"
    using h by (simp_all add: of_int_less_numeral_power_cancel_iff) 
  then have a: "\<bar>of_int (d div Hour) + f\<bar> < 2 ^ 53" using f by simp
  from assms(3) have "d div Hour \<le> k * Hour div Hour" by (simp add: Hour_eq zdiv_mono1)
  then have k: "d div Hour \<le> k" by (simp add: Hour_eq)
  have "of_int (d div Hour) + f \<le> of_int k"
  proof (cases "d div Hour = k")
    case True
    from True have "d = k * Hour + d mod Hour" by (metis div_mult_mod_eq)
    with assms(3) have "d mod Hour \<le> 0" by linarith
    moreover have "0 \<le> d mod Hour" by (simp add: Hour_eq)
    ultimately have "d mod Hour = 0" by simp
    then have "f = 0" by (simp add: f_def float64_of_int_def float64_div_def round_binary64_def)
    with True show ?thesis by simp
  next
    case False
    with k have "d div Hour + 1 \<le> k" by simp
    then have "(of_int (d div Hour) :: rat) + 1 \<le> of_int k"
      by (metis of_int_1 of_int_add of_int_le_iff)
    with f show ?thesis by simp
  qed
  from round_binary64_le_int [OF a this] show ?thesis
    by (simp add: Hours_nonneg_unfold [OF assms(1,2)] f_def)
qed


lemma Hours_range:
  assumes "0 \<le> d" and "d \<le> 2 ^ 63"
  shows "0 \<le> Hours d" and "Hours d \<le> 2 ^ 22"
proof -
  from Hours_ge [OF assms, of 0] assms(1) show "0 \<le> Hours d" by simp
  have "d \<le> 2 ^ 22 * Hour" using assms(2) by (simp add: Hour_eq)
  from Hours_le [OF assms this] show "Hours d \<le> 2 ^ 22" by simp
qed




lemma days_of_ge:
  assumes "0 \<le> d" and "d \<le> 2 ^ 63" and "0 \<le> k" and "k * (24 * Hour) \<le> d"
  shows "k \<le> days_of d"
proof -
  from assms(4) have "(24 * k) * Hour \<le> d" by (simp add: algebra_simps)
  from Hours_ge [OF assms(1,2) this] have k: "of_int k \<le> Hours d / 24" by simp
  note r = Hours_range [OF assms(1,2)]
  then have "\<bar>Hours d / 24\<bar> < 2 ^ 53" by simp
  from round_binary64_ge_int [OF this k] have "of_int k \<le> float64_div (Hours d) 24"
    by (simp add: float64_div_def)
  moreover from this assms(3) have "0 \<le> float64_div (Hours d) 24" by simp
  ultimately show ?thesis by (simp add: days_of_def int_of_float64_def le_floor_iff)
qed





lemma Sub_range: "minDuration \<le> Sub t u" "Sub t u \<le> maxDuration"
  by (simp_all add: Sub_def minDuration_def maxDuration_def)



lemma daysAgo_lower:
  assumes "0 \<le> N" and "N * (24 * Hour) \<le> maxDuration"
    and "N * (24 * Hour) \<le> now - EventDate_of e"
  shows "N \<le> daysAgo now e"
proof -
  define d where "d = Sub now (EventDate_of e)"
  have r: "d \<le> 2 ^ 63" using Sub_range(2) [of now "EventDate_of e"]
    by (simp add: d_def maxDuration_def)
  from assms(2,3) have "N * (24 * Hour) \<le> d"
    by (simp add: d_def Sub_def minDuration_def maxDuration_def)
  moreover from this assms(1) have "0 \<le> d" by (simp add: Hour_eq)
  ultimately show ?thesis unfolding daysAgo_def d_def [symmetric]
    using r assms(1) by (intro days_of_ge)
qed


subsection \<open>One iteration\<close>

text \<open>
  An iteration fails on the ratios of its event only. When it completes, each block of the
  body is one record update, and every field of the new state is given by the old state
  and the event.
\<close>

lemma loop_body_Inl_iff:
  "(\<exists>a. loop_body P now e s = Inl a) \<longleftrightarrow>
     (\<exists>a. wkgFtp_of P (WkgFtp e) = Inl a) \<or> (\<exists>a. avgWkg_of P (AvgWkg e) = Inl a)"
  by (auto simp: loop_body_def Let_def split: sum.splits)

lemma loop_body_Inr:
  assumes "loop_body P now e s = Inr s'"
  obtains w a where "wkgFtp_of P (WkgFtp e) = Inr w" and "avgWkg_of P (AvgWkg e) = Inr a"
    and "s' = latest_race e a w (latest_event e (s\<lparr>rider :=
           last_month (daysAgo now e) (isRace e) w
             (last_two_months (daysAgo now e) w
               (last_three_months (daysAgo now e) (isRace e) w
                 (last_year (daysAgo now e) (isRace e) (rider s))))\<rparr>))"
  using assms by (auto simp: loop_body_def Let_def split: sum.splits)

lemma wkgFtp_text_or_number:
  "ParseFloat s = Inr f \<Longrightarrow>
   wkgFtp_of ParseFloat (ISlice (IString s # rest)) = wkgFtp_of ParseFloat (ISlice (IFloat64 f # rest'))"
  by (simp add: wkgFtp_of_def)



lemma loop_body_EventDateSecs:
  "(\<exists>a. loop_body P now (e\<lparr>EventDateSecs := n\<rparr>) s = Inl a) \<longleftrightarrow> (\<exists>a. loop_body P now e s = Inl a)"
  by (simp add: loop_body_Inl_iff)

lemma last_year_eq:
  "last_year d race r =
     r\<lparr>Rides := Rides r + (if d \<le> 365 then 1 else 0),
       Races := Races r + (if d \<le> 365 \<and> race then 1 else 0)\<rparr>"
  by (simp add: last_year_def Let_def)

lemma last_three_months_eq:
  "last_three_months d race w r =
     r\<lparr>Ftp90 := (if d \<le> 90 \<and> float64_gt w (Ftp90 r) then w else Ftp90 r),
       Races90 := Races90 r + (if d \<le> 90 \<and> race then 1 else 0)\<rparr>"
  by (simp add: last_three_months_def Let_def)

lemma last_two_months_eq:
  "last_two_months d w r =
     r\<lparr>Ftp60 := (if d \<le> 60 \<and> float64_gt w (Ftp60 r) then w else Ftp60 r)\<rparr>"
  by (simp add: last_two_months_def)

lemma last_month_eq:
  "last_month d race w r =
     r\<lparr>Races30 := Races30 r + (if d \<le> 30 \<and> race then 1 else 0),
       Ftp30 := (if d \<le> 30 \<and> float64_gt w (Ftp30 r) then w else Ftp30 r)\<rparr>"
  by (simp add: last_month_def Let_def)

lemma latest_event_eq:
  "latest_event e s =
     s\<lparr>latestEventDate :=
         (if After (EventDate_of e) (latestEventDate s) then EventDate_of e
          else latestEventDate s),
       rider := (rider s)\<lparr>LatestEvent :=
         (if After (EventDate_of e) (latestEventDate s) then EventTitle e
          else LatestEvent (rider s))\<rparr>\<rparr>"
  by (simp add: latest_event_def)

lemma latest_race_eq:
  "latest_race e a w s =
     s\<lparr>latestRaceDate :=
         (if isRace e \<and> After (EventDate_of e) (latestRaceDate s) then EventDate_of e
          else latestRaceDate s),
       rider := (rider s)\<lparr>
         LatestRace :=
           (if isRace e \<and> After (EventDate_of e) (latestRaceDate s) then EventTitle e
            else LatestRace (rider s)),
         LatestRaceAvgWkg :=
           (if isRace e \<and> After (EventDate_of e) (latestRaceDate s) then a
            else LatestRaceAvgWkg (rider s)),
         LatestRaceWkgFtp :=
           (if isRace e \<and> After (EventDate_of e) (latestRaceDate s) then w
            else LatestRaceWkgFtp (rider s))\<rparr>\<rparr>"
  by (simp add: latest_race_def)

lemmas block_defs =
  last_year_eq last_three_months_eq last_two_months_eq last_month_eq
  latest_event_eq latest_race_eq

lemma step_Rides:
  "loop_body P now e s = Inr s' \<Longrightarrow>
   Rides (rider s') = Rides (rider s) + (if daysAgo now e \<le> 365 then 1 else 0)"
  by (erule loop_body_Inr) (simp add: block_defs cong: if_cong split del: if_split)

lemma step_Races:
  "loop_body P now e s = Inr s' \<Longrightarrow>
   Races (rider s') = Races (rider s) + (if daysAgo now e \<le> 365 \<and> isRace e then 1 else 0)"
  by (erule loop_body_Inr) (simp add: block_defs cong: if_cong split del: if_split)

lemma step_Races90:
  "loop_body P now e s = Inr s' \<Longrightarrow>
   Races90 (rider s') = Races90 (rider s) + (if daysAgo now e \<le> 90 \<and> isRace e then 1 else 0)"
  by (erule loop_body_Inr) (simp add: block_defs cong: if_cong split del: if_split)

lemma step_Races30:
  "loop_body P now e s = Inr s' \<Longrightarrow>
   Races30 (rider s') = Races30 (rider s) + (if daysAgo now e \<le> 30 \<and> isRace e then 1 else 0)"
  by (erule loop_body_Inr) (simp add: block_defs cong: if_cong split del: if_split)

lemma step_Ftp90:
  "loop_body P now e s = Inr s' \<Longrightarrow> wkgFtp_of P (WkgFtp e) = Inr w \<Longrightarrow>
   Ftp90 (rider s') =
     (if daysAgo now e \<le> 90 \<and> float64_gt w (Ftp90 (rider s)) then w else Ftp90 (rider s))"
  by (erule loop_body_Inr) (simp add: block_defs cong: if_cong split del: if_split)

lemma step_Ftp60:
  "loop_body P now e s = Inr s' \<Longrightarrow> wkgFtp_of P (WkgFtp e) = Inr w \<Longrightarrow>
   Ftp60 (rider s') =
     (if daysAgo now e \<le> 60 \<and> float64_gt w (Ftp60 (rider s)) then w else Ftp60 (rider s))"
  by (erule loop_body_Inr) (simp add: block_defs cong: if_cong split del: if_split)

lemma step_Ftp30:
  "loop_body P now e s = Inr s' \<Longrightarrow> wkgFtp_of P (WkgFtp e) = Inr w \<Longrightarrow>
   Ftp30 (rider s') =
     (if daysAgo now e \<le> 30 \<and> float64_gt w (Ftp30 (rider s)) then w else Ftp30 (rider s))"
  by (erule loop_body_Inr) (simp add: block_defs cong: if_cong split del: if_split)

lemma step_latestEventDate:
  "loop_body P now e s = Inr s' \<Longrightarrow>
   latestEventDate s' =
     (if After (EventDate_of e) (latestEventDate s) then EventDate_of e else latestEventDate s)"
  by (erule loop_body_Inr) (simp add: block_defs cong: if_cong split del: if_split)







lemma step_nested:
  assumes "loop_body P now e s = Inr s'" and "nested (rider s)"
  shows "nested (rider s')"
  using assms(2)
  unfolding nested_def step_Rides [OF assms(1)] step_Races [OF assms(1)]
    step_Races90 [OF assms(1)] step_Races30 [OF assms(1)]
  by auto



subsection \<open>Maxima of lists\<close>

lemma Max_Cons_append:
  "Max (set (Max (set (c # xs)) # ys)) = Max (set (c # xs @ ys))"
proof -
  have "Max (set (c # xs @ ys)) = Max (set (c # xs) \<union> set (c # ys))" by (simp add: insert_commute Un_insert_right)
  also have "\<dots> = max (Max (set (c # xs))) (Max (set (c # ys)))"
    by (rule Max_Un) simp_all
  also have "\<dots> = Max (set (Max (set (c # xs)) # ys))"
  proof (cases ys)
    case Nil
    then show ?thesis by simp
  next
    case (Cons y ys')
    then show ?thesis by (simp add: max.assoc max.left_commute) (metis List.finite_set Max_ge Max_insert insertI1 list.simps(15) max.absorb1 max.assoc max.commute set_empty2 list.distinct(1))
  qed
  finally show ?thesis by simp
qed







subsection \<open>The loop\<close>

text \<open>
  The loop returns when every event has well-formed ratios. Its result, from any starting
  state: the counters grow by the number of events within their window, a maximum is the
  greatest of its starting value and the values within its window, a latest date is the
  greatest of its starting value and the dates, and a latest pointer is the first event
  with that date when some date exceeds the starting value.
\<close>

lemma for_range_Cons_Inr:
  assumes "for_range P ((now, e) # xs) s = Inr s'"
  obtains s1 where "loop_body P now e s = Inr s1" and "for_range P xs s1 = Inr s'"
  using assms by (cases "loop_body P now e s") simp_all




lemma for_range_nested:
  "for_range P xs s = Inr s' \<Longrightarrow> nested (rider s) \<Longrightarrow> nested (rider s')"
proof (induction xs arbitrary: s)
  case Nil
  then show ?case by simp
next
  case (Cons x xs)
  obtain now e where x: "x = (now, e)" by (cases x)
  from Cons.prems(1) obtain s1 where s1: "loop_body P now e s = Inr s1"
    and rest: "for_range P xs s1 = Inr s'"
    unfolding x by (rule for_range_Cons_Inr)
  from step_nested [OF s1 Cons.prems(2)] Cons.IH [OF rest] show ?case by blast
qed

lemma for_range_Rides:
  "for_range P xs s = Inr s' \<Longrightarrow>
   Rides (rider s') = Rides (rider s) + int (length (filter (\<lambda>(now, e). daysAgo now e \<le> 365) xs))"
proof (induction xs arbitrary: s)
  case Nil
  then show ?case by simp
next
  case (Cons x xs)
  obtain now e where x: "x = (now, e)" by (cases x)
  from Cons.prems(1) obtain s1 where s1: "loop_body P now e s = Inr s1"
    and rest: "for_range P xs s1 = Inr s'"
    unfolding x by (rule for_range_Cons_Inr)
  from Cons.IH [OF rest] step_Rides [OF s1] show ?case by (simp add: x)
qed

lemma for_range_Races:
  "for_range P xs s = Inr s' \<Longrightarrow>
   Races (rider s') =
     Races (rider s) + int (length (filter (\<lambda>(now, e). daysAgo now e \<le> 365 \<and> isRace e) xs))"
proof (induction xs arbitrary: s)
  case Nil
  then show ?case by simp
next
  case (Cons x xs)
  obtain now e where x: "x = (now, e)" by (cases x)
  from Cons.prems(1) obtain s1 where s1: "loop_body P now e s = Inr s1"
    and rest: "for_range P xs s1 = Inr s'"
    unfolding x by (rule for_range_Cons_Inr)
  from Cons.IH [OF rest] step_Races [OF s1] show ?case by (simp add: x)
qed

lemma for_range_Races90:
  "for_range P xs s = Inr s' \<Longrightarrow>
   Races90 (rider s') =
     Races90 (rider s) + int (length (filter (\<lambda>(now, e). daysAgo now e \<le> 90 \<and> isRace e) xs))"
proof (induction xs arbitrary: s)
  case Nil
  then show ?case by simp
next
  case (Cons x xs)
  obtain now e where x: "x = (now, e)" by (cases x)
  from Cons.prems(1) obtain s1 where s1: "loop_body P now e s = Inr s1"
    and rest: "for_range P xs s1 = Inr s'"
    unfolding x by (rule for_range_Cons_Inr)
  from Cons.IH [OF rest] step_Races90 [OF s1] show ?case by (simp add: x)
qed

lemma for_range_Races30:
  "for_range P xs s = Inr s' \<Longrightarrow>
   Races30 (rider s') =
     Races30 (rider s) + int (length (filter (\<lambda>(now, e). daysAgo now e \<le> 30 \<and> isRace e) xs))"
proof (induction xs arbitrary: s)
  case Nil
  then show ?case by simp
next
  case (Cons x xs)
  obtain now e where x: "x = (now, e)" by (cases x)
  from Cons.prems(1) obtain s1 where s1: "loop_body P now e s = Inr s1"
    and rest: "for_range P xs s1 = Inr s'"
    unfolding x by (rule for_range_Cons_Inr)
  from Cons.IH [OF rest] step_Races30 [OF s1] show ?case by (simp add: x)
qed

lemma running_max:
  "(if float64_gt w (Num c) then w else Num c) = Num (Max (set (c # ratio_value (Inr w))))"
proof (cases w)
  case NaN
  then show ?thesis by simp
next
  case (Num v)
  then show ?thesis by (auto simp: max_def)
qed

lemma running_max_window:
  "(if d \<le> N \<and> float64_gt w (Num c) then w else Num c) =
     Num (Max (set (c # (if d \<le> N then ratio_value (Inr w) else []))))"
  using running_max [of w c] by (cases "d \<le> N") simp_all

lemma window_ratios_Nil: "window_ratios P N [] = []"
  by (simp add: window_ratios_def)

lemma window_ratios_Cons:
  "window_ratios P N ((now, e) # xs) =
     (if daysAgo now e \<le> N then ratio_value (wkgFtp_of P (WkgFtp e)) else []) @ window_ratios P N xs"
  by (simp add: window_ratios_def)

lemma window_ratios_empty:
  "(\<forall>(t, e) \<in> set xs. \<not> daysAgo t e \<le> N) \<Longrightarrow> window_ratios P N xs = []"
  by (induction xs) (auto simp: window_ratios_Nil window_ratios_Cons)


lemma for_range_Ftp90:
  "for_range P xs s = Inr s' \<Longrightarrow> Ftp90 (rider s) = Num c \<Longrightarrow>
   Ftp90 (rider s') = Num (Max (set (c # window_ratios P 90 xs)))"
proof (induction xs arbitrary: s c)
  case Nil
  then show ?case by (simp add: window_ratios_Nil)
next
  case (Cons x xs)
  obtain now e where x: "x = (now, e)" by (cases x)
  from Cons.prems(1) obtain s1 where s1: "loop_body P now e s = Inr s1"
    and rest: "for_range P xs s1 = Inr s'"
    unfolding x by (rule for_range_Cons_Inr)
  from s1 obtain w where w: "wkgFtp_of P (WkgFtp e) = Inr w" by (rule loop_body_Inr)
  define h where "h = (if daysAgo now e \<le> 90 then ratio_value (Inr w) else [])"
  have "Ftp90 (rider s1) = Num (Max (set (c # h)))"
    unfolding step_Ftp90 [OF s1 w] Cons.prems(2) h_def by (rule running_max_window)
  from Cons.IH [OF rest this]
  have "Ftp90 (rider s') = Num (Max (set (Max (set (c # h)) # window_ratios P 90 xs)))" .
  then show ?case
    unfolding x window_ratios_Cons w h_def [symmetric] by (simp only: Max_Cons_append)
qed

lemma for_range_Ftp60:
  "for_range P xs s = Inr s' \<Longrightarrow> Ftp60 (rider s) = Num c \<Longrightarrow>
   Ftp60 (rider s') = Num (Max (set (c # window_ratios P 60 xs)))"
proof (induction xs arbitrary: s c)
  case Nil
  then show ?case by (simp add: window_ratios_Nil)
next
  case (Cons x xs)
  obtain now e where x: "x = (now, e)" by (cases x)
  from Cons.prems(1) obtain s1 where s1: "loop_body P now e s = Inr s1"
    and rest: "for_range P xs s1 = Inr s'"
    unfolding x by (rule for_range_Cons_Inr)
  from s1 obtain w where w: "wkgFtp_of P (WkgFtp e) = Inr w" by (rule loop_body_Inr)
  define h where "h = (if daysAgo now e \<le> 60 then ratio_value (Inr w) else [])"
  have "Ftp60 (rider s1) = Num (Max (set (c # h)))"
    unfolding step_Ftp60 [OF s1 w] Cons.prems(2) h_def by (rule running_max_window)
  from Cons.IH [OF rest this]
  have "Ftp60 (rider s') = Num (Max (set (Max (set (c # h)) # window_ratios P 60 xs)))" .
  then show ?case
    unfolding x window_ratios_Cons w h_def [symmetric] by (simp only: Max_Cons_append)
qed

lemma for_range_Ftp30:
  "for_range P xs s = Inr s' \<Longrightarrow> Ftp30 (rider s) = Num c \<Longrightarrow>
   Ftp30 (rider s') = Num (Max (set (c # window_ratios P 30 xs)))"
proof (induction xs arbitrary: s c)
  case Nil
  then show ?case by (simp add: window_ratios_Nil)
next
  case (Cons x xs)
  obtain now e where x: "x = (now, e)" by (cases x)
  from Cons.prems(1) obtain s1 where s1: "loop_body P now e s = Inr s1"
    and rest: "for_range P xs s1 = Inr s'"
    unfolding x by (rule for_range_Cons_Inr)
  from s1 obtain w where w: "wkgFtp_of P (WkgFtp e) = Inr w" by (rule loop_body_Inr)
  define h where "h = (if daysAgo now e \<le> 30 then ratio_value (Inr w) else [])"
  have "Ftp30 (rider s1) = Num (Max (set (c # h)))"
    unfolding step_Ftp30 [OF s1 w] Cons.prems(2) h_def by (rule running_max_window)
  from Cons.IH [OF rest this]
  have "Ftp30 (rider s') = Num (Max (set (Max (set (c # h)) # window_ratios P 30 xs)))" .
  then show ?case
    unfolding x window_ratios_Cons w h_def [symmetric] by (simp only: Max_Cons_append)
qed

lemma for_range_latestEventDate:
  "for_range P xs s = Inr s' \<Longrightarrow>
   latestEventDate s' = Max (set (latestEventDate s # map (\<lambda>(now, e). EventDate_of e) xs))"
proof (induction xs arbitrary: s)
  case Nil
  then show ?case by simp
next
  case (Cons x xs)
  obtain now e where x: "x = (now, e)" by (cases x)
  from Cons.prems(1) obtain s1 where s1: "loop_body P now e s = Inr s1"
    and rest: "for_range P xs s1 = Inr s'"
    unfolding x by (rule for_range_Cons_Inr)
  have "latestEventDate s1 = Max (set [latestEventDate s, EventDate_of e])"
    unfolding step_latestEventDate [OF s1] by (simp add: After_def max_def)
  with Cons.IH [OF rest]
  have "latestEventDate s' =
          Max (set (Max (set [latestEventDate s, EventDate_of e]) # map (\<lambda>(now, e). EventDate_of e) xs))"
    by simp
  then show ?case unfolding Max_Cons_append by (simp add: x)
qed




subsection \<open>The readings of the clock\<close>


lemma in_readings:
  assumes "(t, e) \<in> set (readings clock Data)"
  obtains i where "i < length Data" and "t = clock i" and "e = Data ! i"
proof -
  from assms obtain i where i: "i < length (readings clock Data)"
    and "readings clock Data ! i = (t, e)"
    by (auto simp: in_set_conv_nth)
  then have "i < length Data" "t = clock i" "e = Data ! i"
    by (auto simp: readings_def)
  with that show ?thesis by blast
qed

lemma readings_Nil_iff: "readings clock Data = [] \<longleftrightarrow> Data = []"
  by (simp add: readings_def)










subsection \<open>The returned snapshot\<close>

lemma ImportRider_decoded:
  "getJSON = Inr data \<Longrightarrow> json_Unmarshal data = Inr Data \<Longrightarrow>
   ImportRider P clock getJSON json_Unmarshal riderID = ImportRider_Data P clock riderID Data"
  by (simp add: ImportRider_def)


lemma ImportRider_Data_Inr:
  assumes "ImportRider_Data P clock riderID Data = Inr (r, err)" and "Data \<noteq> []"
  obtains s where
    "for_range P (readings clock Data)
       \<lparr>rider = zero_Rider\<lparr>Zwid := riderID\<rparr>, latestEventDate = zero_Time,
        latestRaceDate = zero_Time\<rparr> = Inr s"
    and "r = (rider s)\<lparr>LatestEventDate := latestEventDate s, LatestRaceDate := latestRaceDate s\<rparr>"
    and "err = None"
proof -
  from assms(2) have "\<not> length Data < 1" by (cases Data) auto
  with assms(1) that show ?thesis
    by (auto simp: ImportRider_Data_def split: sum.splits)
qed









lemma scenario_run:
  "ImportRider_Data ParseFloat_table (\<lambda>_. now500) 7 [E1, E2, E3] =
     Inr (\<lparr>Name = [], Zwid = 7, LatestEventDate = 42336000 * Second, Rides = 2, Races = 2,
           Races90 = 2, Races30 = 1, Ftp90 = Num (Fin (11 / 10)), Ftp60 = Num (Fin (11 / 10)),
           Ftp30 = Num (Fin (21 / 20)), LatestRace = ''E2'',
           LatestRaceDate = 42336000 * Second, LatestEvent = ''E2'',
           LatestRaceAvgWkg = Num (Fin (13 / 4)), LatestRaceWkgFtp = Num (Fin (21 / 20))\<rparr>,
          None)"
  by code_simp

section \<open>The claims\<close>

text \<open>
  Claim C1 (a ratio given as a number and as numeric text normalizes identically, for both
  fields). The code does so for \<^verbatim>\<open>wkg_ftp\<close> only: \<^verbatim>\<open>avg_wkg\<close> is asserted to be a string
  with no check, so a rider whose \<^verbatim>\<open>avg_wkg\<close> starts with a number ends the call in a
  panic, whatever the text parser and the other fields are.
\<close>

theorem avg_wkg_number_panics:
  "ImportRider_Data P clock riderID
     [e\<lparr>AvgWkg := ISlice [IFloat64 f], WkgFtp := ISlice [IFloat64 g]\<rparr>] =
     Inl PanicInterfaceConversion
   \<and> wkgFtp_of P (ISlice [IFloat64 f]) = Inr f
   \<and> avgWkg_of P (ISlice [IFloat64 f]) = Inl PanicInterfaceConversion"
  by (simp add: ImportRider_Data_def readings_def loop_body_def wkgFtp_of_def avgWkg_of_def)




text \<open>
  Claim C3: a snapshot that \<^verbatim>\<open>ImportRider\<close> returns has
  \<open>Races30 \<le> Races90 \<le> Races \<le> Rides\<close>.
\<close>

theorem window_counters_nested:
  assumes "ImportRider_Data P clock riderID Data = Inr (r, err)"
  shows "Races30 r \<le> Races90 r \<and> Races90 r \<le> Races r \<and> Races r \<le> Rides r"
proof (cases "length Data < 1")
  case True
  with assms show ?thesis by (auto simp: ImportRider_Data_def zero_Rider_def)
next
  case False
  define s0 where
    "s0 = \<lparr>rider = zero_Rider\<lparr>Zwid := riderID\<rparr>, latestEventDate = zero_Time,
            latestRaceDate = zero_Time\<rparr>"
  from assms False obtain s where s: "for_range P (readings clock Data) s0 = Inr s"
    and r: "r = (rider s)\<lparr>LatestEventDate := latestEventDate s, LatestRaceDate := latestRaceDate s\<rparr>"
    by (auto simp: ImportRider_Data_def s0_def split: sum.splits)
  have "nested (rider s0)" by (simp add: nested_def s0_def zero_Rider_def)
  from for_range_nested [OF s this] show ?thesis by (simp add: nested_def r)
qed

theorem window_counters_nested_witness:
  "\<exists>r. ImportRider_Data ParseFloat_table (\<lambda>_. now500) 7 [E1, E2, E3] = Inr (r, None) \<and>
       Races30 r \<le> Races90 r \<and> Races90 r \<le> Races r \<and> Races r \<le> Rides r \<and>
       Races30 r = 1 \<and> Races90 r = 2 \<and> Races r = 2 \<and> Rides r = 2"
  using window_counters_nested [OF scenario_run] scenario_run by simp








text \<open>
  Claim C7: \<^verbatim>\<open>UnmarshalJSON\<close> returns \<^verbatim>\<open>nil\<close> in every case. Bytes that do not decode into an
  \<^verbatim>\<open>int64\<close> give the timestamp zero, and so does a missing key; the date is then the Unix
  epoch. Bytes that decode give their number, taken as seconds since the epoch. Whether an
  iteration completes does not depend on the timestamp.
\<close>

theorem timestamp_decoding:
  "snd (UnmarshalJSON json_Unmarshal data) = None \<and>
   (\<forall>err. json_Unmarshal data = Inl err \<longrightarrow>
      fst (UnmarshalJSON json_Unmarshal data) = 0 \<and>
      EventDate_of (e\<lparr>EventDateSecs := decode_EventDateSecs json_Unmarshal (Some data)\<rparr>) =
        time_Unix 0 0) \<and>
   (\<forall>n. json_Unmarshal data = Inr n \<longrightarrow>
      fst (UnmarshalJSON json_Unmarshal data) = n \<and>
      EventDate_of (e\<lparr>EventDateSecs := decode_EventDateSecs json_Unmarshal (Some data)\<rparr>) =
        time_Unix n 0) \<and>
   EventDate_of (e\<lparr>EventDateSecs := decode_EventDateSecs json_Unmarshal None\<rparr>) = time_Unix 0 0 \<and>
   ((\<exists>a. loop_body P now (e\<lparr>EventDateSecs := decode_EventDateSecs json_Unmarshal field\<rparr>) s = Inl a)
      \<longleftrightarrow> (\<exists>a. loop_body P now e s = Inl a))"
  by (simp add: UnmarshalJSON_def decode_EventDateSecs_def EventDate_of_def loop_body_EventDateSecs)

theorem timestamp_decoding_witness:
  "json_Unmarshal_table [CHR 0x22, CHR 0x22] =
     Inl (Error ''json: cannot unmarshal into Go value of type int64'') \<and>
   UnmarshalJSON json_Unmarshal_table [CHR 0x22, CHR 0x22] = (0, None) \<and>
   EventDate_of (E1\<lparr>EventDateSecs :=
       decode_EventDateSecs json_Unmarshal_table (Some [CHR 0x22, CHR 0x22])\<rparr>) = time_Unix 0 0 \<and>
   json_Unmarshal_table ''1700000000'' = Inr 1700000000 \<and>
   UnmarshalJSON json_Unmarshal_table ''1700000000'' = (1700000000, None) \<and>
   EventDate_of (E1\<lparr>EventDateSecs :=
       decode_EventDateSecs json_Unmarshal_table (Some ''1700000000'')\<rparr>) = time_Unix 1700000000 0"
proof -
  have a: "json_Unmarshal_table [CHR 0x22, CHR 0x22] =
      Inl (Error ''json: cannot unmarshal into Go value of type int64'')"
    by (simp add: json_Unmarshal_table_def)
  have b: "json_Unmarshal_table ''1700000000'' = Inr 1700000000"
    by (simp add: json_Unmarshal_table_def)
  note t1 = timestamp_decoding [of json_Unmarshal_table "[CHR 0x22, CHR 0x22]" E1]
  note t2 = timestamp_decoding [of json_Unmarshal_table "''1700000000''" E1]
  from t1 a have c: "snd (UnmarshalJSON json_Unmarshal_table [CHR 0x22, CHR 0x22]) = None"
    "fst (UnmarshalJSON json_Unmarshal_table [CHR 0x22, CHR 0x22]) = 0"
    "EventDate_of (E1\<lparr>EventDateSecs :=
       decode_EventDateSecs json_Unmarshal_table (Some [CHR 0x22, CHR 0x22])\<rparr>) = time_Unix 0 0"
    by blast+
  from t2 b have d: "snd (UnmarshalJSON json_Unmarshal_table ''1700000000'') = None"
    "fst (UnmarshalJSON json_Unmarshal_table ''1700000000'') = 1700000000"
    "EventDate_of (E1\<lparr>EventDateSecs :=
       decode_EventDateSecs json_Unmarshal_table (Some ''1700000000'')\<rparr>) = time_Unix 1700000000 0"
    by blast+
  from a b c d show ?thesis by (simp add: prod_eq_iff)
qed




text \<open>
  Claim C9: with no event, \<^verbatim>\<open>ImportRider\<close> returns at once, with no error, the zero
  \<^verbatim>\<open>Rider\<close> carrying the rider's id: every counter and maximum is zero, and the latest
  event and race have no title, the zero time and zero ratios.
\<close>

theorem empty_Data_snapshot:
  "\<exists>r. ImportRider_Data P clock riderID [] = Inr (r, None) \<and> Zwid r = riderID \<and>
     Rides r = 0 \<and> Races r = 0 \<and> Races90 r = 0 \<and> Races30 r = 0 \<and>
     Ftp90 r = float64_zero \<and> Ftp60 r = float64_zero \<and> Ftp30 r = float64_zero \<and>
     LatestEvent r = [] \<and> IsZero (LatestEventDate r) \<and>
     LatestRace r = [] \<and> IsZero (LatestRaceDate r) \<and>
     LatestRaceAvgWkg r = float64_zero \<and> LatestRaceWkgFtp r = float64_zero"
  by (simp add: ImportRider_Data_def zero_Rider_def IsZero_def)

text \<open>
  Claim C10 (every event has the timestamp zero and now is more than 365 days after the
  epoch: nothing is counted, yet the latest event date is the epoch, not the zero time, and
  \<^verbatim>\<open>MonthsAgo\<close> says \<^verbatim>\<open>Over a year ago\<close>). Half a day after the 365th day \<^verbatim>\<open>daysAgo\<close> is still
  365 and the events count as rides of the last year; the statement holds from the 366th
  day on.
\<close>

theorem unknown_dates_old_rider:
  assumes "Data \<noteq> []"
    and "\<forall>e \<in> set Data. EventDateSecs e = 0"
    and "\<forall>i < length Data. 366 * (24 * Hour) \<le> clock i"
    and "ImportRider_Data P clock riderID Data = Inr (r, err)"
    and "365 * (24 * Hour) < clock' 0"
  shows "Rides r = 0 \<and> Races r = 0 \<and> Races90 r = 0 \<and> Races30 r = 0 \<and>
    Ftp90 r = float64_zero \<and> Ftp60 r = float64_zero \<and> Ftp30 r = float64_zero \<and>
    LatestEventDate r = time_Unix 0 0 \<and> \<not> IsZero (LatestEventDate r) \<and>
    MonthsAgo clock' Month r = ''Over a year ago'' \<and>
    (\<forall>r'. \<not> IsZero (LatestEventDate r') \<and>
         Hour * 24 * 365 < Sub (clock' 0) (LatestEventDate r') \<longrightarrow>
         MonthsAgo clock' Month r' = MonthsAgo clock' Month r)"
proof -
  define xs where "xs = readings clock Data"
  define s0 where
    "s0 = \<lparr>rider = zero_Rider\<lparr>Zwid := riderID\<rparr>, latestEventDate = zero_Time,
            latestRaceDate = zero_Time\<rparr>"
  from assms(4,1) obtain s where s: "for_range P xs s0 = Inr s"
    and r: "r = (rider s)\<lparr>LatestEventDate := latestEventDate s, LatestRaceDate := latestRaceDate s\<rparr>"
    unfolding xs_def s0_def by (rule ImportRider_Data_Inr)
  have each: "EventDate_of e = 0 \<and> \<not> daysAgo t e \<le> 365" if "(t, e) \<in> set xs" for t e
  proof -
    from that obtain i where i: "i < length Data" "t = clock i" "e = Data ! i"
      unfolding xs_def by (rule in_readings)
    with assms(2) have z: "EventDate_of e = 0" by (simp add: EventDate_of_def time_Unix_def)
    from i assms(3) have "366 * (24 * Hour) \<le> t" by simp
    with z have "366 * (24 * Hour) \<le> t - EventDate_of e" by simp
    then have "366 \<le> daysAgo t e"
      by (intro daysAgo_lower) (simp_all add: maxDuration_def Hour_eq)
    with z show ?thesis by simp
  qed
  then have out: "\<forall>(t, e) \<in> set xs. \<not> daysAgo t e \<le> N" if "N \<le> 365" for N
    using that by fastforce
  have f365: "filter (\<lambda>(now, e). daysAgo now e \<le> 365) xs = []"
    using each by (auto simp: filter_empty_conv)
  have f365r: "filter (\<lambda>(now, e). daysAgo now e \<le> 365 \<and> isRace e) xs = []"
    using each by (auto simp: filter_empty_conv)
  have f90r: "filter (\<lambda>(now, e). daysAgo now e \<le> 90 \<and> isRace e) xs = []"
    using out [of 90] by (auto simp: filter_empty_conv)
  have f30r: "filter (\<lambda>(now, e). daysAgo now e \<le> 30 \<and> isRace e) xs = []"
    using out [of 30] by (auto simp: filter_empty_conv)
  have z0: "Ftp90 (rider s0) = Num (Fin 0)" "Ftp60 (rider s0) = Num (Fin 0)"
    "Ftp30 (rider s0) = Num (Fin 0)"
    by (simp_all add: s0_def zero_Rider_def float64_zero_def)
  have counters: "Rides r = 0" "Races r = 0" "Races90 r = 0" "Races30 r = 0"
    using for_range_Rides [OF s] for_range_Races [OF s] for_range_Races90 [OF s]
      for_range_Races30 [OF s]
    by (simp_all add: r f365 f365r f90r f30r s0_def zero_Rider_def)
  have maxima: "Ftp90 r = float64_zero" "Ftp60 r = float64_zero" "Ftp30 r = float64_zero"
    using for_range_Ftp90 [OF s z0(1)] for_range_Ftp60 [OF s z0(2)] for_range_Ftp30 [OF s z0(3)]
    by (simp_all add: r window_ratios_empty [OF out] float64_zero_def)
  from assms(1) have "xs \<noteq> []" by (simp add: xs_def readings_Nil_iff)
  with each have "set (map (\<lambda>(now, e). EventDate_of e) xs) = {0}"
    by (cases xs) (auto simp: image_iff)
  with for_range_latestEventDate [OF s] have "latestEventDate s = Max {zero_Time, 0}"
    by (simp add: s0_def)
  then have date: "LatestEventDate r = 0" by (simp add: r zero_Time_def Second_def)
  then have nz: "\<not> IsZero (LatestEventDate r)" by (simp add: IsZero_def zero_Time_def Second_def)
  from assms(5) have long: "Hour * 24 * 365 < Sub (clock' 0) 0"
    by (simp add: Sub_def maxDuration_def minDuration_def Hour_eq)
  with nz date have months: "MonthsAgo clock' Month r = ''Over a year ago''"
    by (simp add: MonthsAgo_def)
  have same: "\<forall>r'. \<not> IsZero (LatestEventDate r') \<and>
         Hour * 24 * 365 < Sub (clock' 0) (LatestEventDate r') \<longrightarrow>
         MonthsAgo clock' Month r' = MonthsAgo clock' Month r"
    unfolding months by (simp add: MonthsAgo_def)
  from date have epoch: "LatestEventDate r = time_Unix 0 0" by (simp add: time_Unix_def)
  show ?thesis
    by (intro conjI counters maxima epoch nz months same)
qed

theorem unknown_dates_old_rider_witness:
  "\<exists>r. ImportRider_Data ParseFloat_table (\<lambda>_. now500) 7
         [E3\<lparr>EventDateSecs := 0\<rparr>, E1\<lparr>EventDateSecs := 0\<rparr>] = Inr (r, None) \<and>
       Rides r = 0 \<and> Races30 r = 0 \<and> Ftp90 r = float64_zero \<and>
       LatestEventDate r = time_Unix 0 0 \<and> \<not> IsZero (LatestEventDate r) \<and>
       MonthsAgo (\<lambda>_. now500) (\<lambda>_. 1) r = ''Over a year ago''"
proof -
  define Data where "Data = [E3\<lparr>EventDateSecs := 0\<rparr>, E1\<lparr>EventDateSecs := 0\<rparr>]"
  define r where
    "r = \<lparr>Name = [], Zwid = 7, LatestEventDate = 0, Rides = 0, Races = 0,
         Races90 = 0, Races30 = 0, Ftp90 = Num (Fin 0), Ftp60 = Num (Fin 0),
         Ftp30 = Num (Fin 0), LatestRace = ''E1'', LatestRaceDate = 0,
         LatestEvent = ''E3'', LatestRaceAvgWkg = Num (Fin (13 / 4)),
         LatestRaceWkgFtp = Num (Fin (11 / 10))\<rparr>"
  have h1: "Data \<noteq> []" by (simp add: Data_def)
  have h2: "\<forall>e \<in> set Data. EventDateSecs e = 0" by (simp add: Data_def)
  have h3: "\<forall>i < length Data. 366 * (24 * Hour) \<le> (\<lambda>_. now500) i"
    by (simp add: now500_def Hour_eq)
  have h4: "ImportRider_Data ParseFloat_table (\<lambda>_. now500) 7 Data = Inr (r, None)"
    unfolding Data_def r_def by code_simp
  have h5: "365 * (24 * Hour) < (\<lambda>_. now500) (0 :: nat)"
    by (simp add: now500_def Hour_eq)
  from unknown_dates_old_rider [OF h1 h2 h3 h4 h5, of "\<lambda>_. 1"] h4
  show ?thesis unfolding Data_def by blast
qed

theorem unknown_dates_counted_before_366_days:
  "365 * (24 * Hour) < 365 * (24 * Hour) + 12 * Hour \<and>
   (\<exists>r. ImportRider_Data ParseFloat_table (\<lambda>_. 365 * (24 * Hour) + 12 * Hour) 7
          [E3\<lparr>EventDateSecs := 0\<rparr>] = Inr (r, None) \<and> Rides r = 1)"
proof -
  have "ImportRider_Data ParseFloat_table (\<lambda>_. 365 * (24 * Hour) + 12 * Hour) 7
      [E3\<lparr>EventDateSecs := 0\<rparr>] =
    Inr (\<lparr>Name = [], Zwid = 7, LatestEventDate = 0, Rides = 1, Races = 0,
         Races90 = 0, Races30 = 0, Ftp90 = Num (Fin 0), Ftp60 = Num (Fin 0),
         Ftp30 = Num (Fin 0), LatestRace = [],
         LatestRaceDate = zero_Time, LatestEvent = ''E3'',
         LatestRaceAvgWkg = Num (Fin 0), LatestRaceWkgFtp = Num (Fin 0)\<rparr>, None)"
    by code_simp
  then show ?thesis by (simp add: Hour_eq)
qed

end
